theory Spec2Isabelle
  imports Main "HOL-Library.Sublist"
begin

section \<open>The user model (models/User.js)\<close>

subsection \<open>JavaScript values and exceptions\<close>

text \<open>
  A JavaScript exception is an \<open>Error\<close> object; the repository reads only its
  \<open>message\<close>. A rejected promise of an \<open>async\<close> function is the \<open>Inl\<close> branch of
  a sum, a resolved one the \<open>Inr\<close> branch.
\<close>

datatype js_error = Error (message: string)

text \<open>
  The values a property read can give here: a string, a sub-document, or \<open>undefined\<close>
  for a property the object does not have.
\<close>

datatype jsval = JUndefined | JString string | JObject "(string \<times> jsval) list"

text \<open>String conversion as a template literal \<open>`${v}`\<close> performs it.\<close>

fun to_string :: "jsval \<Rightarrow> string" where
  "to_string JUndefined = ''undefined''"
| "to_string (JString s) = s"
| "to_string (JObject kvs) = ''[object Object]''"

definition opt_val :: "string option \<Rightarrow> jsval" where
  "opt_val v = (case v of None \<Rightarrow> JUndefined | Some s \<Rightarrow> JString s)"

subsection \<open>UserSchema\<close>

text \<open>
  The schema declares five paths. \<open>User\<close>, \<open>email\<close> and \<open>passwordHash\<close> are required
  strings; \<open>role\<close> is a string with an enum validator and a default; \<open>profile\<close> is a
  nested object of three optional strings. A document also carries Mongoose's change
  tracking: the list of paths modified since it was loaded or created.
\<close>

record user_profile =
  firstName :: "string option"
  lastName :: "string option"
  phone :: "string option"

record user =
  User :: string
  email :: string
  passwordHash :: string
  role :: string
  profile :: user_profile
  modifiedPaths :: "string list"

definition isModified :: "user \<Rightarrow> string \<Rightarrow> bool" where
  "isModified this path = (path \<in> set (modifiedPaths this))"

text \<open>The \<open>enum\<close> and \<open>default\<close> of the \<open>role\<close> path, as the schema lists them.\<close>

definition role_enum :: "string list" where
  "role_enum = [''user'', ''admin'', ''moderator'']"

definition role_default :: string where
  "role_default = ''user''"

text \<open>
  A document is built from the caller's object; a path the caller leaves undefined takes
  its default, and only \<open>role\<close> has one.
\<close>

definition role_of_input :: "string option \<Rightarrow> string" where
  "role_of_input r = (case r of None \<Rightarrow> role_default | Some v \<Rightarrow> v)"

text \<open>
  The validators the schema declares, path by path: \<open>required: true\<close> on a string path
  rejects the empty string, \<open>enum\<close> rejects a value outside the list. The result is
  the list of failing paths, empty for a valid document.
\<close>

definition validate :: "user \<Rightarrow> string list" where
  "validate this =
     (if User this = [] then [''User''] else []) @
     (if email this = [] then [''email''] else []) @
     (if passwordHash this = [] then [''passwordHash''] else []) @
     (if role this \<in> set role_enum then [] else [''role''])"

text \<open>
  Reading a property of a document by name: the schema's paths are its properties, and
  any other name gives \<open>undefined\<close>.
\<close>

definition profile_object :: "user_profile \<Rightarrow> jsval" where
  "profile_object p =
     JObject [(''firstName'', opt_val (firstName p)),
              (''lastName'', opt_val (lastName p)),
              (''phone'', opt_val (phone p))]"

definition get_prop :: "user \<Rightarrow> string \<Rightarrow> jsval" where
  "get_prop this name =
     (if name = ''User'' then JString (User this)
      else if name = ''email'' then JString (email this)
      else if name = ''passwordHash'' then JString (passwordHash this)
      else if name = ''role'' then JString (role this)
      else if name = ''profile'' then profile_object (profile this)
      else JUndefined)"

fun get_field :: "jsval \<Rightarrow> string \<Rightarrow> jsval" where
  "get_field (JObject kvs) name = (case map_of kvs name of None \<Rightarrow> JUndefined | Some v \<Rightarrow> v)"
| "get_field _ name = JUndefined"

subsection \<open>The bcrypt package\<close>

text \<open>
  \<open>bcrypt\<close> is an npm package; its code is not part of the repository. It enters the
  model as a parameter: the two functions the repository calls.
  \<open>bcrypt.hash(data, rounds)\<close> draws a random salt; the draw is the third argument
  here, so that the function is deterministic. Both return a promise, which may reject.
  The hook calls \<open>bcrypt.hash\<close> on a string path of a document. \<open>bcrypt.compare\<close> is
  called on whatever its two argument expressions evaluate to, \<open>undefined\<close> included.
\<close>

record bcrypt =
  bcrypt_hash :: "string \<Rightarrow> nat \<Rightarrow> string \<Rightarrow> js_error + string"
  bcrypt_compare :: "jsval \<Rightarrow> jsval \<Rightarrow> js_error + bool"

subsection \<open>The pre-save hook, comparePassword and the fullname virtual\<close>

text \<open>
  \<^verbatim>\<open>
  UserSchema.pre('save', async function (next) {
    if (this.isModified('passwordHash')) {
      this.passwordHash = await bcrypt.hash(this.passwordHash, 10);
    }
    next();
  });
  \<close>
  A rejection of \<open>bcrypt.hash\<close> leaves the assignment and \<open>next()\<close> undone and rejects
  the hook.
\<close>

definition pre_save :: "bcrypt \<Rightarrow> string \<Rightarrow> user \<Rightarrow> js_error + user" where
  "pre_save B salt this =
     (if isModified this ''passwordHash'' then
        (case bcrypt_hash B (passwordHash this) 10 salt of
           Inl err \<Rightarrow> Inl err
         | Inr h \<Rightarrow> Inr (this\<lparr>passwordHash := h\<rparr>))
      else Inr this)"

text \<open>
  \<^verbatim>\<open>
  UserSchema.comparePassword = async function (password) {
    return await bcrypt.compare(password, this.passwordHash);
  };
  \<close>
  The function is assigned to a property of the Schema object; it is not entered in
  \<open>UserSchema.methods\<close>. A call \<open>UserSchema.comparePassword(password)\<close> runs the body
  with the Schema object as \<open>this\<close>, and the Schema object has no property
  \<open>passwordHash\<close>. A document is the receiver only when the caller binds it by hand,
  with \<open>UserSchema.comparePassword.call(doc, password)\<close>.
\<close>

datatype receiver = SchemaObject | Document user

definition this_passwordHash :: "receiver \<Rightarrow> jsval" where
  "this_passwordHash this =
     (case this of
        SchemaObject \<Rightarrow> JUndefined
      | Document doc \<Rightarrow> get_prop doc ''passwordHash'')"

definition comparePassword :: "bcrypt \<Rightarrow> receiver \<Rightarrow> jsval \<Rightarrow> js_error + bool" where
  "comparePassword B this password = bcrypt_compare B password (this_passwordHash this)"

text \<open>
  Mongoose gives a document the functions entered in \<open>UserSchema.methods\<close>, and the
  source enters none. A call \<open>doc.comparePassword(password)\<close> on a document therefore
  finds no function and throws a TypeError.
\<close>

definition UserSchema_methods :: "string list" where
  "UserSchema_methods = []"

definition call_document_method :: "bcrypt \<Rightarrow> user \<Rightarrow> string \<Rightarrow> jsval \<Rightarrow> js_error + bool" where
  "call_document_method B doc name password =
     (if name \<in> set UserSchema_methods then comparePassword B (Document doc) password
      else Inl (Error (name @ '' is not a function'')))"

text \<open>
  \<^verbatim>\<open>
  UserSchema.virtual('fullname').get(function () {
    return `${this.firstName} ${this.lastName}`;
  });
  \<close>
\<close>

definition fullname :: "user \<Rightarrow> string" where
  "fullname this =
     to_string (get_prop this ''firstName'') @ '' '' @ to_string (get_prop this ''lastName'')"

text \<open>The derivation the schema's nesting calls for, reading the profile sub-document.\<close>

definition fullname_from_profile :: "user \<Rightarrow> string" where
  "fullname_from_profile this =
     to_string (get_field (get_prop this ''profile'') ''firstName'') @ '' '' @
     to_string (get_field (get_prop this ''profile'') ''lastName'')"

subsection \<open>A bcrypt to run the code with\<close>

text \<open>
  An instance of the interface, to run the repository's functions on concrete inputs.
  It keeps the salt in front of the digest, as bcrypt does, and has none of bcrypt's
  security. Like the package it hashes every string, the empty one too; its
  \<open>compare\<close> rejects an argument that is undefined or no string, with the package's
  messages, and on two strings it says whether the second is a hash of the first.
\<close>

fun toy_compare :: "jsval \<Rightarrow> jsval \<Rightarrow> js_error + bool" where
  "toy_compare (JString data) (JString h) = Inr (suffix (''$'' @ rev data) h)"
| "toy_compare JUndefined h = Inl (Error ''data and hash arguments required'')"
| "toy_compare data JUndefined = Inl (Error ''data and hash arguments required'')"
| "toy_compare data h = Inl (Error ''data and hash must be strings'')"

definition toy_bcrypt :: bcrypt where
  "toy_bcrypt =
     \<lparr>bcrypt_hash = (\<lambda>data rounds salt. Inr (salt @ ''$'' @ rev data)),
      bcrypt_compare = toy_compare\<rparr>"

definition ada :: user where
  "ada =
     \<lparr>User = ''ada'', email = ''ada@x.com'', passwordHash = ''Passw0rd!'', role = ''user'',
      profile = \<lparr>firstName = Some ''Ada'', lastName = Some ''Lovelace'', phone = None\<rparr>,
      modifiedPaths = [''passwordHash'']\<rparr>"

section \<open>The database bootstrap (src/config/database.js)\<close>

text \<open>
  \<^verbatim>\<open>
  export const dbStart = async () => {
    const db_url = process.env.MONGODB_URI;
    if (!db_url) {
      console.error('MONGODB_URI is not defined!');
      return;
    }
    try {
      await mongoose.connect(db_url);
      console.log('Database connected successfully!');
    } catch (err) {
      console.error('Database connection error:', err.message);
    }
  };
  \<close>
  The environment variable is a string or undefined. What the function does to the
  outside is kept in a record: the lines written to the console and the URLs handed to
  \<open>mongoose.connect\<close>. The outcome of a connection attempt is a parameter. The test
  \<open>!db_url\<close> holds for undefined and for the empty string. The messages are the
  source's without their leading emoji.
\<close>

record process_env =
  MONGODB_URI :: "string option"

record world =
  console :: "string list"
  connect_calls :: "string list"

definition dbStart ::
  "(string \<Rightarrow> js_error + unit) \<Rightarrow> process_env \<Rightarrow> world \<Rightarrow> js_error + world" where
  "dbStart mongoose_connect env w =
     (case MONGODB_URI env of
        None \<Rightarrow> Inr (w\<lparr>console := console w @ [''MONGODB_URI is not defined!'']\<rparr>)
      | Some db_url \<Rightarrow>
          if db_url = [] then Inr (w\<lparr>console := console w @ [''MONGODB_URI is not defined!'']\<rparr>)
          else
            (case mongoose_connect db_url of
               Inr u \<Rightarrow>
                 Inr (w\<lparr>console := console w @ [''Database connected successfully!''],
                        connect_calls := connect_calls w @ [db_url]\<rparr>)
             | Inl err \<Rightarrow>
                 Inr (w\<lparr>console := console w @ [''Database connection error: '' @ message err],
                        connect_calls := connect_calls w @ [db_url]\<rparr>)))"

definition refused :: "string \<Rightarrow> js_error + unit" where
  "refused db_url = Inl (Error ''connect ECONNREFUSED 127.0.0.1:27017'')"

section \<open>The session service of the specification\<close>

text \<open>
  Signup, login, refresh, logout and password change are planned in the repository's
  roadmap and have no code in it. The definitions of this section follow sections 3 and
  4 of the specification instead. Requests are served one after another; the
  specification's demands on concurrent requests are outside this model.
\<close>

subsection \<open>Data\<close>

text \<open>Modelled from the spec: the error kinds of section 7; the repository defines none.\<close>

datatype error =
    DuplicateUserError | WeakPasswordError | InvalidCredentialsError
  | TokenInvalidError | TokenExpiredError | DuplicateTokenError | InvalidInputError

text \<open>
  Modelled from the spec: the roles and the User record of section 3 (identifier,
  username, email, passwordHash, role); the Credential Store is a list of them.
\<close>

datatype user_role = Candidate | Recruiter | Admin

record credential =
  cred_id :: nat
  cred_username :: string
  cred_email :: string
  cred_hash :: string
  cred_role :: user_role

text \<open>
  Modelled from the spec: the RefreshToken record of section 3 (owner, token,
  expiresAt). A token is an opaque value; the random draw is idealised as a counter, so
  that no value is drawn twice. Times are seconds.
\<close>

record refresh_record =
  owner :: nat
  token :: nat
  expiresAt :: nat

text \<open>
  Modelled from the spec: the access token of section 4.2, as the claims it carries
  (user identifier, role, expiry); its signature is left out.
\<close>

datatype access_token = AccessToken nat user_role nat

text \<open>
  Modelled from the spec: the Password Hasher of section 4.1, \<open>hash\<close> and \<open>verify\<close>,
  as a parameter of the service.
\<close>

record hasher =
  hash_pw :: "string \<Rightarrow> error + string"
  verify_pw :: "string \<Rightarrow> string \<Rightarrow> bool"

text \<open>
  Modelled from the spec: the shared state of section 5, the Credential Store and the
  Refresh-Token Ledger, with the next identifier and the next token value to be drawn.
\<close>

record session_state =
  users :: "credential list"
  ledger :: "refresh_record list"
  next_id :: nat
  next_token :: nat

definition init :: session_state where
  "init = \<lparr>users = [], ledger = [], next_id = 0, next_token = 0\<rparr>"

subsection \<open>Token Issuer\<close>

text \<open>
  Modelled from the spec: \<open>issueAccessToken\<close> and \<open>issueRefreshToken\<close> of section 4.2,
  with the lifetimes it gives as examples, 30 minutes and 7 days.
\<close>

definition access_lifetime :: nat where
  "access_lifetime = 1800"

definition refresh_lifetime :: nat where
  "refresh_lifetime = 604800"

definition issueAccessToken :: "nat \<Rightarrow> user_role \<Rightarrow> nat \<Rightarrow> access_token \<times> nat" where
  "issueAccessToken userId r now =
     (AccessToken userId r (now + access_lifetime), now + access_lifetime)"

definition issueRefreshToken ::
  "session_state \<Rightarrow> nat \<Rightarrow> nat \<Rightarrow> (nat \<times> nat) \<times> session_state" where
  "issueRefreshToken s userId now =
     ((next_token s, now + refresh_lifetime), s\<lparr>next_token := Suc (next_token s)\<rparr>)"

subsection \<open>Refresh-Token Ledger\<close>

text \<open>
  Modelled from the spec: \<open>store\<close>, \<open>lookup\<close>, \<open>revoke\<close> and \<open>revokeAll\<close> of section
  4.3. \<open>store\<close> fails with \<open>DuplicateTokenError\<close> if the token exists; \<open>lookup\<close> is
  absent for a token never stored, deleted or expired, the expiry being checked at read
  time; \<open>revoke\<close> deletes and is idempotent.
\<close>

definition store ::
  "refresh_record list \<Rightarrow> nat \<Rightarrow> nat \<Rightarrow> nat \<Rightarrow> error + refresh_record list" where
  "store l userId tok exp =
     (if tok \<in> token ` set l then Inl DuplicateTokenError
      else Inr (l @ [\<lparr>owner = userId, token = tok, expiresAt = exp\<rparr>]))"

definition lookup :: "refresh_record list \<Rightarrow> nat \<Rightarrow> nat \<Rightarrow> refresh_record option" where
  "lookup l tok now = find (\<lambda>r. token r = tok \<and> now \<le> expiresAt r) l"

definition revoke :: "refresh_record list \<Rightarrow> nat \<Rightarrow> refresh_record list" where
  "revoke l tok = filter (\<lambda>r. token r \<noteq> tok) l"

definition revokeAll :: "refresh_record list \<Rightarrow> nat \<Rightarrow> refresh_record list" where
  "revokeAll l userId = filter (\<lambda>r. owner r \<noteq> userId) l"

subsection \<open>Session Service\<close>

text \<open>
  Modelled from the spec: the step that signup, login and refresh share in section 4.4,
  issuing both tokens and storing the refresh token.
\<close>

definition open_session ::
  "session_state \<Rightarrow> credential \<Rightarrow> nat \<Rightarrow> error + (access_token \<times> nat) \<times> session_state" where
  "open_session s u now =
     (case issueRefreshToken s (cred_id u) now of
        ((tok, exp), s1) \<Rightarrow>
          (case store (ledger s1) (cred_id u) tok exp of
             Inl e \<Rightarrow> Inl e
           | Inr l \<Rightarrow>
               Inr ((fst (issueAccessToken (cred_id u) (cred_role u) now), tok),
                    s1\<lparr>ledger := l\<rparr>)))"

text \<open>
  Modelled from the spec: \<open>signup\<close> of section 4.4. It fails with
  \<open>DuplicateUserError\<close> if the email or the username exists, with \<open>WeakPasswordError\<close>
  if the password is shorter than 8, checked before hashing; on success it creates the
  user, issues both tokens and stores the refresh token. The checks are in the order
  the specification lists them. It does not say which role a new user gets; the role is
  an argument here.
\<close>

definition signup ::
  "hasher \<Rightarrow> session_state \<Rightarrow> string \<Rightarrow> string \<Rightarrow> string \<Rightarrow> user_role \<Rightarrow> nat \<Rightarrow>
     error + (credential \<times> access_token \<times> nat) \<times> session_state" where
  "signup H s username mail password r now =
     (if \<exists>u \<in> set (users s). cred_email u = mail \<or> cred_username u = username
      then Inl DuplicateUserError
      else if length password < 8 then Inl WeakPasswordError
      else
        (case hash_pw H password of
           Inl e \<Rightarrow> Inl e
         | Inr h \<Rightarrow>
             (let u = \<lparr>cred_id = next_id s, cred_username = username, cred_email = mail,
                        cred_hash = h, cred_role = r\<rparr>;
                  s1 = s\<lparr>users := users s @ [u], next_id := Suc (next_id s)\<rparr>
              in case open_session s1 u now of
                   Inl e \<Rightarrow> Inl e
                 | Inr ((a, t), s2) \<Rightarrow> Inr ((u, a, t), s2))))"

text \<open>
  Modelled from the spec: \<open>login\<close> of section 4.4. It fails with
  \<open>InvalidCredentialsError\<close> for no such user and for a wrong password alike; on
  success it issues and stores a new refresh token and revokes nothing.
\<close>

definition login ::
  "hasher \<Rightarrow> session_state \<Rightarrow> string \<Rightarrow> string \<Rightarrow> nat \<Rightarrow>
     error + (access_token \<times> nat) \<times> session_state" where
  "login H s mail password now =
     (case find (\<lambda>u. cred_email u = mail) (users s) of
        None \<Rightarrow> Inl InvalidCredentialsError
      | Some u \<Rightarrow>
          if verify_pw H password (cred_hash u) then open_session s u now
          else Inl InvalidCredentialsError)"

text \<open>
  Modelled from the spec: \<open>refresh\<close> of section 4.4. It looks the token up and fails
  with \<open>InvalidCredentialsError\<close> if it is absent or expired; on success it revokes the
  old token, issues and stores a new refresh token and issues a new access token, in
  one step. The access token needs the owner's role; for an owner who is in no record
  the specification names no error, and the request fails like an absent token.
\<close>

definition refresh ::
  "session_state \<Rightarrow> nat \<Rightarrow> nat \<Rightarrow> error + (access_token \<times> nat) \<times> session_state" where
  "refresh s tok now =
     (case lookup (ledger s) tok now of
        None \<Rightarrow> Inl InvalidCredentialsError
      | Some r \<Rightarrow>
          (case find (\<lambda>u. cred_id u = owner r) (users s) of
             None \<Rightarrow> Inl InvalidCredentialsError
           | Some u \<Rightarrow> open_session (s\<lparr>ledger := revoke (ledger s) tok\<rparr>) u now))"

text \<open>Modelled from the spec: \<open>logout\<close> of section 4.4, which revokes the token.\<close>

definition logout :: "session_state \<Rightarrow> nat \<Rightarrow> session_state" where
  "logout s tok = s\<lparr>ledger := revoke (ledger s) tok\<rparr>"

text \<open>
  Modelled from the spec: \<open>changePassword\<close> of section 4.4. It verifies the old
  password and fails with \<open>InvalidCredentialsError\<close> if it is wrong, hashes the new one
  and revokes every refresh token of the user.
\<close>

definition changePassword ::
  "hasher \<Rightarrow> session_state \<Rightarrow> nat \<Rightarrow> string \<Rightarrow> string \<Rightarrow> error + session_state" where
  "changePassword H s userId oldPassword newPassword =
     (case find (\<lambda>u. cred_id u = userId) (users s) of
        None \<Rightarrow> Inl InvalidCredentialsError
      | Some u \<Rightarrow>
          if verify_pw H oldPassword (cred_hash u) then
            (case hash_pw H newPassword of
               Inl e \<Rightarrow> Inl e
             | Inr h \<Rightarrow>
                 Inr (s\<lparr>users := map (\<lambda>v. if cred_id v = userId then v\<lparr>cred_hash := h\<rparr> else v) (users s),
                        ledger := revokeAll (ledger s) userId\<rparr>))
          else Inl InvalidCredentialsError)"

text \<open>
  Modelled from the spec: the service as section 5 describes it, a sequence of external
  calls. A request that fails leaves the state as it was. The reachable states are those
  that \<open>serve_all\<close> reaches from \<open>init\<close>.
\<close>

datatype request =
    Signup string string string user_role nat
  | Login string string nat
  | Refresh nat nat
  | Logout nat
  | ChangePassword nat string string

fun serve :: "hasher \<Rightarrow> session_state \<Rightarrow> request \<Rightarrow> session_state" where
  "serve H s (Signup username mail password r now) =
     (case signup H s username mail password r now of Inl e \<Rightarrow> s | Inr (out, s') \<Rightarrow> s')"
| "serve H s (Login mail password now) =
     (case login H s mail password now of Inl e \<Rightarrow> s | Inr (out, s') \<Rightarrow> s')"
| "serve H s (Refresh tok now) =
     (case refresh s tok now of Inl e \<Rightarrow> s | Inr (out, s') \<Rightarrow> s')"
| "serve H s (Logout tok) = logout s tok"
| "serve H s (ChangePassword userId oldPassword newPassword) =
     (case changePassword H s userId oldPassword newPassword of Inl e \<Rightarrow> s | Inr s' \<Rightarrow> s')"

definition serve_all :: "hasher \<Rightarrow> session_state \<Rightarrow> request list \<Rightarrow> session_state" where
  "serve_all H s reqs = foldl (serve H) s reqs"

subsection \<open>Invariants and a concrete run\<close>

definition unique_users :: "session_state \<Rightarrow> bool" where
  "unique_users s =
     (distinct (map cred_email (users s)) \<and> distinct (map cred_username (users s)))"

text \<open>Every token of the ledger has been drawn already.\<close>

definition ledger_below :: "session_state \<Rightarrow> bool" where
  "ledger_below s = (\<forall>r \<in> set (ledger s). token r < next_token s)"

text \<open>A spent token has been drawn and is in no record of the ledger.\<close>

definition spent :: "nat \<Rightarrow> session_state \<Rightarrow> bool" where
  "spent tok s = (tok \<notin> token ` set (ledger s) \<and> tok < next_token s)"

text \<open>
  A hasher to run the service with: as section 4.1 asks, \<open>hash\<close> fails on the empty
  input and \<open>verify\<close> accepts what \<open>hash\<close> returned. It has no security.
\<close>

definition toy_hasher :: hasher where
  "toy_hasher =
     \<lparr>hash_pw = (\<lambda>p. if p = [] then Inl InvalidInputError else Inr (''$'' @ rev p)),
      verify_pw = (\<lambda>p h. h = ''$'' @ rev p)\<rparr>"

definition alice_signup :: request where
  "alice_signup = Signup ''alice'' ''alice@x.com'' ''Passw0rd!'' Candidate 0"

definition alice :: credential where
  "alice = \<lparr>cred_id = 0, cred_username = ''alice'', cred_email = ''alice@x.com'',
            cred_hash = ''$!dr0wssaP'', cred_role = Candidate\<rparr>"

definition after_signup :: session_state where
  "after_signup =
     \<lparr>users = [alice],
      ledger = [\<lparr>owner = 0, token = 0, expiresAt = 604800\<rparr>],
      next_id = 1, next_token = 1\<rparr>"

definition after_refresh :: session_state where
  "after_refresh =
     \<lparr>users = [alice],
      ledger = [\<lparr>owner = 0, token = 1, expiresAt = 604805\<rparr>],
      next_id = 1, next_token = 2\<rparr>"

section \<open>The pre-save hook\<close>

lemma pre_save_unmodified:
  "\<not> isModified this ''passwordHash'' \<Longrightarrow> pre_save B salt this = Inr this"
  by (simp add: pre_save_def)

lemma pre_save_modified:
  "isModified this ''passwordHash'' \<Longrightarrow>
   pre_save B salt this =
     (case bcrypt_hash B (passwordHash this) 10 salt of
        Inl err \<Rightarrow> Inl err
      | Inr h \<Rightarrow> Inr (this\<lparr>passwordHash := h\<rparr>))"
  by (simp add: pre_save_def)

lemma pre_save_changes_only_hash:
  assumes "pre_save B salt this = Inr this'"
  shows "\<exists>h. this' = this\<lparr>passwordHash := h\<rparr>"
proof (cases "isModified this ''passwordHash''")
  case True
  with assms show ?thesis
    by (auto simp: pre_save_def split: sum.splits)
next
  case False
  with assms have "this' = this" by (simp add: pre_save_def)
  then have "this' = this\<lparr>passwordHash := passwordHash this\<rparr>" by simp
  then show ?thesis ..
qed

text \<open>
  C7. On a save in which \<open>passwordHash\<close> is not modified the hook returns the document
  as it is, every field unchanged. It calls \<open>bcrypt.hash\<close> exactly on the saves in
  which the field is modified, and whenever it returns, no field but \<open>passwordHash\<close>
  has changed.
\<close>

theorem pre_save_frame:
  "(\<not> isModified this ''passwordHash'' \<longrightarrow> pre_save B salt this = Inr this) \<and>
   (isModified this ''passwordHash'' \<longrightarrow>
      pre_save B salt this =
        (case bcrypt_hash B (passwordHash this) 10 salt of
           Inl err \<Rightarrow> Inl err
         | Inr h \<Rightarrow> Inr (this\<lparr>passwordHash := h\<rparr>))) \<and>
   (\<forall>this'. pre_save B salt this = Inr this' \<longrightarrow> (\<exists>h. this' = this\<lparr>passwordHash := h\<rparr>))"
proof -
  have unmodified: "\<not> isModified this ''passwordHash'' \<longrightarrow> pre_save B salt this = Inr this"
    by (simp add: pre_save_unmodified)
  have modified: "isModified this ''passwordHash'' \<longrightarrow>
      pre_save B salt this =
        (case bcrypt_hash B (passwordHash this) 10 salt of
           Inl err \<Rightarrow> Inl err
         | Inr h \<Rightarrow> Inr (this\<lparr>passwordHash := h\<rparr>))"
    by (simp add: pre_save_modified)
  have frame: "\<forall>this'. pre_save B salt this = Inr this' \<longrightarrow> (\<exists>h. this' = this\<lparr>passwordHash := h\<rparr>)"
    using pre_save_changes_only_hash by blast
  from unmodified modified frame show ?thesis
    by (intro conjI)
qed

theorem pre_save_frame_witness:
  "\<not> isModified (ada\<lparr>modifiedPaths := [''email'']\<rparr>) ''passwordHash'' \<and>
   pre_save toy_bcrypt ''salt'' (ada\<lparr>modifiedPaths := [''email'']\<rparr>) =
     Inr (ada\<lparr>modifiedPaths := [''email'']\<rparr>) \<and>
   isModified ada ''passwordHash'' \<and>
   pre_save toy_bcrypt ''salt'' ada = Inr (ada\<lparr>passwordHash := ''salt$!dr0wssaP''\<rparr>)"
proof -
  let ?d = "ada\<lparr>modifiedPaths := [''email'']\<rparr>"
  have a: "\<not> isModified ?d ''passwordHash''"
    by (simp add: isModified_def)
  have b: "isModified ada ''passwordHash''"
    by (simp add: isModified_def ada_def)
  have c: "bcrypt_hash toy_bcrypt (passwordHash ada) 10 ''salt'' = Inr ''salt$!dr0wssaP''"
    by (simp add: toy_bcrypt_def ada_def)
  have w1: "pre_save toy_bcrypt ''salt'' ?d = Inr ?d"
    using a conjunct1 [OF pre_save_frame [of ?d toy_bcrypt "''salt''"]] by (rule_tac mp)
  have "pre_save toy_bcrypt ''salt'' ada =
      (case bcrypt_hash toy_bcrypt (passwordHash ada) 10 ''salt'' of
         Inl err \<Rightarrow> Inl err
       | Inr h \<Rightarrow> Inr (ada\<lparr>passwordHash := h\<rparr>))"
    using b conjunct1 [OF conjunct2 [OF pre_save_frame [of ada toy_bcrypt "''salt''"]]]
    by (rule_tac mp)
  then have w2: "pre_save toy_bcrypt ''salt'' ada = Inr (ada\<lparr>passwordHash := ''salt$!dr0wssaP''\<rparr>)"
    by (simp only: c sum.case)
  from a w1 b w2 show ?thesis
    by (intro conjI)
qed

section \<open>Hashing and verifying\<close>

text \<open>
  With the Schema object as receiver the stored hash does not reach \<open>bcrypt.compare\<close>,
  whatever bcrypt is: the second argument is \<open>undefined\<close>.
\<close>

lemma comparePassword_on_schema:
  "comparePassword B SchemaObject password = bcrypt_compare B password JUndefined"
  by (simp add: comparePassword_def this_passwordHash_def)

lemma comparePassword_on_document:
  "comparePassword B (Document doc) password =
     bcrypt_compare B password (JString (passwordHash doc))"
  by (simp add: comparePassword_def this_passwordHash_def get_prop_def)

lemma call_document_method_throws:
  "call_document_method B doc name password = Inl (Error (name @ '' is not a function''))"
  by (simp add: call_document_method_def UserSchema_methods_def)

text \<open>
  C1. The claim asks that verifying \<open>p\<close> against the hash of \<open>p\<close> return true. The hook
  hashes the password of the user Ada; then \<open>UserSchema.comparePassword\<close>, called as
  the source attaches it, rejects, because \<open>this.passwordHash\<close> is undefined on the
  Schema object, and the saved document has no method \<open>comparePassword\<close> to call. The
  body returns true only with the document bound as \<open>this\<close> by hand.
\<close>

theorem hash_then_compare_rejects:
  "pre_save toy_bcrypt ''salt'' ada = Inr (ada\<lparr>passwordHash := ''salt$!dr0wssaP''\<rparr>) \<and>
   comparePassword toy_bcrypt SchemaObject (JString ''Passw0rd!'') =
     Inl (Error ''data and hash arguments required'') \<and>
   call_document_method toy_bcrypt (ada\<lparr>passwordHash := ''salt$!dr0wssaP''\<rparr>)
       ''comparePassword'' (JString ''Passw0rd!'') =
     Inl (Error ''comparePassword is not a function'') \<and>
   comparePassword toy_bcrypt (Document (ada\<lparr>passwordHash := ''salt$!dr0wssaP''\<rparr>))
       (JString ''Passw0rd!'') = Inr True"
proof -
  have hook: "pre_save toy_bcrypt ''salt'' ada = Inr (ada\<lparr>passwordHash := ''salt$!dr0wssaP''\<rparr>)"
    by (simp add: pre_save_def isModified_def toy_bcrypt_def ada_def)
  have schema: "comparePassword toy_bcrypt SchemaObject (JString ''Passw0rd!'') =
      Inl (Error ''data and hash arguments required'')"
    by (simp add: comparePassword_on_schema toy_bcrypt_def)
  have on_document: "call_document_method toy_bcrypt (ada\<lparr>passwordHash := ''salt$!dr0wssaP''\<rparr>)
      ''comparePassword'' (JString ''Passw0rd!'') = Inl (Error ''comparePassword is not a function'')"
    by (simp add: call_document_method_throws)
  have bound: "comparePassword toy_bcrypt (Document (ada\<lparr>passwordHash := ''salt$!dr0wssaP''\<rparr>))
      (JString ''Passw0rd!'') = Inr True"
    by (simp add: comparePassword_on_document toy_bcrypt_def suffix_to_prefix)
  from hook schema on_document bound show ?thesis
    by (intro conjI)
qed

text \<open>
  C5, as amended. On the empty string the hook makes no check of its own and has no
  error of its own: for a modified, empty \<open>passwordHash\<close> its outcome is the outcome
  of \<open>bcrypt.hash\<close> on the empty string at cost 10, stored in the field when it is a
  hash. What rejects an empty \<open>passwordHash\<close> is the schema's \<open>required\<close> validator.
\<close>

theorem pre_save_empty_input:
  assumes "isModified this ''passwordHash''" and "passwordHash this = []"
  shows "pre_save B salt this =
           (case bcrypt_hash B [] 10 salt of
              Inl err \<Rightarrow> Inl err
            | Inr h \<Rightarrow> Inr (this\<lparr>passwordHash := h\<rparr>)) \<and>
         ''passwordHash'' \<in> set (validate this)"
  using assms by (simp add: pre_save_def validate_def)

theorem pre_save_empty_input_witness:
  "isModified (ada\<lparr>passwordHash := ''''\<rparr>) ''passwordHash'' \<and>
   passwordHash (ada\<lparr>passwordHash := ''''\<rparr>) = [] \<and>
   pre_save toy_bcrypt ''salt'' (ada\<lparr>passwordHash := ''''\<rparr>) =
     (case bcrypt_hash toy_bcrypt [] 10 ''salt'' of
        Inl err \<Rightarrow> Inl err
      | Inr h \<Rightarrow> Inr (ada\<lparr>passwordHash := ''''\<rparr>\<lparr>passwordHash := h\<rparr>)) \<and>
   ''passwordHash'' \<in> set (validate (ada\<lparr>passwordHash := ''''\<rparr>))"
proof -
  let ?d = "ada\<lparr>passwordHash := ''''\<rparr>"
  have m: "isModified ?d ''passwordHash''"
    by (simp add: isModified_def ada_def)
  have e: "passwordHash ?d = []"
    by simp
  from m e pre_save_empty_input [OF m e, of toy_bcrypt "''salt''"] show ?thesis
    by blast
qed

text \<open>
  The claim as stated fails: with a bcrypt that hashes the empty string, as the package
  does, the hook returns a document with a hash of it.
\<close>

theorem pre_save_empty_counterexample:
  "pre_save toy_bcrypt ''salt'' (ada\<lparr>passwordHash := ''''\<rparr>) =
     Inr (ada\<lparr>passwordHash := ''salt$''\<rparr>)"
  by (simp add: pre_save_def isModified_def toy_bcrypt_def ada_def)

text \<open>
  C6. The claim asks that verification against a stored value that is no well-formed
  hash return false and not throw. For a document whose \<open>passwordHash\<close> is no hash,
  \<open>UserSchema.comparePassword\<close>, called as the source attaches it, rejects, because
  \<open>this.passwordHash\<close> is undefined on the Schema object, and the call of the method
  on the document throws. The body returns false only with the document bound as
  \<open>this\<close> by hand.
\<close>

theorem compare_malformed_rejects:
  "comparePassword toy_bcrypt SchemaObject (JString ''Passw0rd!'') =
     Inl (Error ''data and hash arguments required'') \<and>
   call_document_method toy_bcrypt (ada\<lparr>passwordHash := ''not-a-hash''\<rparr>)
       ''comparePassword'' (JString ''Passw0rd!'') =
     Inl (Error ''comparePassword is not a function'') \<and>
   comparePassword toy_bcrypt (Document (ada\<lparr>passwordHash := ''not-a-hash''\<rparr>))
       (JString ''Passw0rd!'') = Inr False"
proof -
  have schema: "comparePassword toy_bcrypt SchemaObject (JString ''Passw0rd!'') =
      Inl (Error ''data and hash arguments required'')"
    by (simp add: comparePassword_on_schema toy_bcrypt_def)
  have on_document: "call_document_method toy_bcrypt (ada\<lparr>passwordHash := ''not-a-hash''\<rparr>)
      ''comparePassword'' (JString ''Passw0rd!'') = Inl (Error ''comparePassword is not a function'')"
    by (simp add: call_document_method_throws)
  have bound: "comparePassword toy_bcrypt (Document (ada\<lparr>passwordHash := ''not-a-hash''\<rparr>))
      (JString ''Passw0rd!'') = Inr False"
    by (simp add: comparePassword_on_document toy_bcrypt_def suffix_to_prefix)
  from schema on_document bound show ?thesis
    by (intro conjI)
qed

section \<open>The fullname virtual and the role enum\<close>

lemma fullname_undefined: "fullname this = ''undefined undefined''"
  by (simp add: fullname_def get_prop_def)

text \<open>
  C4. The claim asks that the full name be read from the profile sub-document. The
  getter reads \<open>this.firstName\<close> and \<open>this.lastName\<close>, which the schema does not
  declare at the top level: for a user whose profile holds Ada and Lovelace it gives
  \<open>undefined undefined\<close>, where the derivation from the profile gives \<open>Ada Lovelace\<close>.
\<close>

theorem fullname_ignores_profile:
  "fullname ada = ''undefined undefined'' \<and> fullname_from_profile ada = ''Ada Lovelace''"
  by (simp add: fullname_def fullname_from_profile_def get_prop_def profile_object_def
      opt_val_def ada_def)

text \<open>
  C2. The claim asks for a role out of candidate, recruiter and admin. The schema's enum
  is user, admin, moderator with the default user: validation rejects the roles
  recruiter and candidate, accepts moderator, and a document created without a role
  has the role user.
\<close>

theorem role_enum_rejects_recruiter:
  "validate ada = [] \<and>
   validate (ada\<lparr>role := ''recruiter''\<rparr>) = [''role''] \<and>
   validate (ada\<lparr>role := ''candidate''\<rparr>) = [''role''] \<and>
   validate (ada\<lparr>role := ''moderator''\<rparr>) = [] \<and>
   role_of_input None = ''user''"
  by (simp add: validate_def role_enum_def role_of_input_def role_default_def ada_def)

text \<open>The hook, the only code that writes to a document, leaves the role as it is.\<close>

lemma pre_save_keeps_role: "pre_save B salt this = Inr this' \<Longrightarrow> role this' = role this"
  using pre_save_changes_only_hash [of B salt this this'] by auto

section \<open>dbStart\<close>

text \<open>
  C10. \<open>dbStart\<close> returns normally whatever the environment and whatever the outcome
  of the connection attempt: with \<open>MONGODB_URI\<close> undefined it writes one line and
  returns without a call of \<open>mongoose.connect\<close>; when the attempt fails it writes the
  error's message and returns.
\<close>

theorem dbStart_returns:
  "(\<exists>w'. dbStart mongoose_connect env w = Inr w') \<and>
   (MONGODB_URI env = None \<longrightarrow>
      dbStart mongoose_connect env w =
        Inr (w\<lparr>console := console w @ [''MONGODB_URI is not defined!'']\<rparr>)) \<and>
   (\<forall>db_url err. MONGODB_URI env = Some db_url \<and> db_url \<noteq> [] \<and> mongoose_connect db_url = Inl err \<longrightarrow>
      dbStart mongoose_connect env w =
        Inr (w\<lparr>console := console w @ [''Database connection error: '' @ message err],
               connect_calls := connect_calls w @ [db_url]\<rparr>))"
proof -
  have returns: "\<exists>w'. dbStart mongoose_connect env w = Inr w'"
    by (simp add: dbStart_def split: option.split sum.split)
  have undefined_uri: "MONGODB_URI env = None \<longrightarrow>
      dbStart mongoose_connect env w =
        Inr (w\<lparr>console := console w @ [''MONGODB_URI is not defined!'']\<rparr>)"
    by (simp add: dbStart_def)
  have caught: "\<forall>db_url err. MONGODB_URI env = Some db_url \<and> db_url \<noteq> [] \<and> mongoose_connect db_url = Inl err \<longrightarrow>
      dbStart mongoose_connect env w =
        Inr (w\<lparr>console := console w @ [''Database connection error: '' @ message err],
               connect_calls := connect_calls w @ [db_url]\<rparr>)"
    by (simp add: dbStart_def)
  from returns undefined_uri caught show ?thesis
    by (intro conjI)
qed

theorem dbStart_returns_witness:
  "dbStart refused \<lparr>MONGODB_URI = None\<rparr> \<lparr>console = [], connect_calls = []\<rparr> =
     Inr \<lparr>console = [''MONGODB_URI is not defined!''], connect_calls = []\<rparr> \<and>
   dbStart refused \<lparr>MONGODB_URI = Some ''mongodb://localhost:27017/job-portal''\<rparr>
       \<lparr>console = [], connect_calls = []\<rparr> =
     Inr \<lparr>console = [''Database connection error: connect ECONNREFUSED 127.0.0.1:27017''],
          connect_calls = [''mongodb://localhost:27017/job-portal'']\<rparr>"
proof -
  let ?w = "\<lparr>console = [], connect_calls = []\<rparr>"
  let ?url = "''mongodb://localhost:27017/job-portal''"
  note none = dbStart_returns [of refused "\<lparr>MONGODB_URI = None\<rparr>" ?w]
  note some = dbStart_returns [of refused "\<lparr>MONGODB_URI = Some ?url\<rparr>" ?w]
  have a: "dbStart refused \<lparr>MONGODB_URI = None\<rparr> ?w =
      Inr (?w\<lparr>console := console ?w @ [''MONGODB_URI is not defined!'']\<rparr>)"
    using none by simp
  have r: "refused ?url = Inl (Error ''connect ECONNREFUSED 127.0.0.1:27017'')"
    by (simp add: refused_def)
  have "MONGODB_URI \<lparr>MONGODB_URI = Some ?url\<rparr> = Some ?url \<and> ?url \<noteq> [] \<and>
      refused ?url = Inl (Error ''connect ECONNREFUSED 127.0.0.1:27017'')"
    using r by simp
  with some have b: "dbStart refused \<lparr>MONGODB_URI = Some ?url\<rparr> ?w =
      Inr (?w\<lparr>console := console ?w @
             [''Database connection error: '' @ message (Error ''connect ECONNREFUSED 127.0.0.1:27017'')],
           connect_calls := connect_calls ?w @ [?url]\<rparr>)"
    by blast
  from a b show ?thesis by simp
qed


section \<open>The session service: uniqueness, indistinguishable failures, rotation\<close>

lemma open_session_Inr:
  assumes "open_session s u now = Inr (out, s')"
  shows "users s' = users s \<and> next_id s' = next_id s \<and> next_token s' = Suc (next_token s) \<and>
         ledger s' = ledger s @ [\<lparr>owner = cred_id u, token = next_token s, expiresAt = now + refresh_lifetime\<rparr>] \<and>
         snd out = next_token s"
  using assms
  by (auto simp: open_session_def issueRefreshToken_def store_def split: if_splits)

lemma signup_Inr:
  assumes "signup H s username mail password r now = Inr (out, s')"
  shows "\<exists>u. users s' = users s @ [u] \<and> cred_email u = mail \<and> cred_username u = username \<and>
           (\<forall>v \<in> set (users s). cred_email v \<noteq> mail \<and> cred_username v \<noteq> username) \<and>
           next_token s' = Suc (next_token s) \<and>
           (\<exists>rec. ledger s' = ledger s @ [rec] \<and> token rec = next_token s)"
proof -
  from assms have fresh: "\<forall>v \<in> set (users s). cred_email v \<noteq> mail \<and> cred_username v \<noteq> username"
    by (auto simp: signup_def split: if_splits)
  from assms obtain h where h: "hash_pw H password = Inr h"
    by (auto simp: signup_def split: if_splits sum.splits)
  define u where "u = \<lparr>cred_id = next_id s, cred_username = username, cred_email = mail,
                        cred_hash = h, cred_role = r\<rparr>"
  define s1 where "s1 = s\<lparr>users := users s @ [u], next_id := Suc (next_id s)\<rparr>"
  from assms fresh h obtain out' where "open_session s1 u now = Inr (out', s')"
    by (auto simp: signup_def Let_def u_def s1_def split: if_splits sum.splits prod.splits)
  from open_session_Inr [OF this] have "users s' = users s @ [u]" "next_token s' = Suc (next_token s)"
    "ledger s' = ledger s @ [\<lparr>owner = cred_id u, token = next_token s, expiresAt = now + refresh_lifetime\<rparr>]"
    by (simp_all add: s1_def)
  with fresh show ?thesis
    by (intro exI [of _ u]) (simp add: u_def)
qed

lemma login_Inr:
  assumes "login H s mail password now = Inr (out, s')"
  shows "users s' = users s \<and> next_token s' = Suc (next_token s) \<and>
         (\<exists>rec. ledger s' = ledger s @ [rec] \<and> token rec = next_token s)"
proof -
  from assms obtain u where "open_session s u now = Inr (out, s')"
    by (auto simp: login_def split: option.splits if_splits)
  from open_session_Inr [OF this] show ?thesis by simp
qed

lemma refresh_Inr:
  assumes "refresh s tok now = Inr (out, s')"
  shows "users s' = users s \<and> next_token s' = Suc (next_token s) \<and>
         tok \<in> token ` set (ledger s) \<and>
         (\<exists>rec. ledger s' = revoke (ledger s) tok @ [rec] \<and> token rec = next_token s)"
proof -
  from assms obtain r where r: "lookup (ledger s) tok now = Some r"
    by (auto simp: refresh_def split: option.splits)
  then have "r \<in> set (ledger s)" "token r = tok"
    by (auto simp: lookup_def find_Some_iff)
  then have mem: "tok \<in> token ` set (ledger s)" by blast
  from assms r obtain u where "open_session (s\<lparr>ledger := revoke (ledger s) tok\<rparr>) u now = Inr (out, s')"
    by (auto simp: refresh_def split: option.splits)
  from open_session_Inr [OF this] mem show ?thesis by simp
qed

lemma changePassword_Inr:
  assumes "changePassword H s userId oldPassword newPassword = Inr s'"
  shows "map cred_email (users s') = map cred_email (users s) \<and>
         map cred_username (users s') = map cred_username (users s) \<and>
         next_token s' = next_token s \<and> ledger s' = revokeAll (ledger s) userId"
proof -
  from assms obtain h where
    "s' = s\<lparr>users := map (\<lambda>v. if cred_id v = userId then v\<lparr>cred_hash := h\<rparr> else v) (users s),
            ledger := revokeAll (ledger s) userId\<rparr>"
    by (auto simp: changePassword_def split: option.splits if_splits sum.splits)
  then show ?thesis
    by (simp add: comp_def if_distrib cong: if_cong)
qed

lemma serve_cases:
  "serve H s req = s \<or>
   (\<exists>username mail password r now out. signup H s username mail password r now = Inr (out, serve H s req)) \<or>
   (\<exists>mail password now out. login H s mail password now = Inr (out, serve H s req)) \<or>
   (\<exists>tok now out. refresh s tok now = Inr (out, serve H s req)) \<or>
   (\<exists>tok. serve H s req = logout s tok) \<or>
   (\<exists>userId oldPassword newPassword. changePassword H s userId oldPassword newPassword = Inr (serve H s req))"
proof (cases req)
  case (Signup username mail password r now)
  show ?thesis
  proof (cases "signup H s username mail password r now")
    case (Inl e)
    then have "serve H s req = s" by (simp add: Signup)
    then show ?thesis by (rule disjI1)
  next
    case (Inr res)
    obtain out s' where res: "res = (out, s')" by (cases res)
    have "serve H s req = s'" by (simp add: Signup Inr res)
    then have "signup H s username mail password r now = Inr (out, serve H s req)"
      by (simp add: Inr res)
    then show ?thesis by blast
  qed
next
  case (Login mail password now)
  show ?thesis
  proof (cases "login H s mail password now")
    case (Inl e)
    then have "serve H s req = s" by (simp add: Login)
    then show ?thesis by (rule disjI1)
  next
    case (Inr res)
    obtain out s' where res: "res = (out, s')" by (cases res)
    have "serve H s req = s'" by (simp add: Login Inr res)
    then have "login H s mail password now = Inr (out, serve H s req)"
      by (simp add: Inr res)
    then show ?thesis by blast
  qed
next
  case (Refresh tok now)
  show ?thesis
  proof (cases "refresh s tok now")
    case (Inl e)
    then have "serve H s req = s" by (simp add: Refresh)
    then show ?thesis by (rule disjI1)
  next
    case (Inr res)
    obtain out s' where res: "res = (out, s')" by (cases res)
    have "serve H s req = s'" by (simp add: Refresh Inr res)
    then have "refresh s tok now = Inr (out, serve H s req)"
      by (simp add: Inr res)
    then show ?thesis by blast
  qed
next
  case (Logout tok)
  then have "serve H s req = logout s tok" by simp
  then show ?thesis by blast
next
  case (ChangePassword userId oldPassword newPassword)
  show ?thesis
  proof (cases "changePassword H s userId oldPassword newPassword")
    case (Inl e)
    then have "serve H s req = s" by (simp add: ChangePassword)
    then show ?thesis by (rule disjI1)
  next
    case (Inr s')
    have "serve H s req = s'" by (simp add: ChangePassword Inr)
    then have "changePassword H s userId oldPassword newPassword = Inr (serve H s req)"
      by (simp add: Inr)
    then show ?thesis by blast
  qed
qed

lemma signup_unique_users:
  assumes "signup H s username mail password r now = Inr (out, s')" and u: "unique_users s"
  shows "unique_users s'"
proof -
  from signup_Inr [OF assms(1)] obtain nu where
    nu: "users s' = users s @ [nu]" "cred_email nu = mail" "cred_username nu = username"
      "\<forall>v \<in> set (users s). cred_email v \<noteq> mail \<and> cred_username v \<noteq> username"
    by blast
  have "cred_email nu \<notin> cred_email ` set (users s)"
    using nu(2,4) by (metis imageE)
  moreover have "cred_username nu \<notin> cred_username ` set (users s)"
    using nu(3,4) by (metis imageE)
  ultimately show ?thesis
    using u by (simp add: unique_users_def nu(1))
qed

lemma serve_unique_users:
  assumes u: "unique_users s"
  shows "unique_users (serve H s req)"
proof -
  consider "serve H s req = s"
    | username mail password r now out where
        "signup H s username mail password r now = Inr (out, serve H s req)"
    | mail password now out where "login H s mail password now = Inr (out, serve H s req)"
    | tok now out where "refresh s tok now = Inr (out, serve H s req)"
    | tok where "serve H s req = logout s tok"
    | userId oldPassword newPassword where
        "changePassword H s userId oldPassword newPassword = Inr (serve H s req)"
    using serve_cases [of H s req] by blast
  then show ?thesis
  proof cases
    case 1
    with u show ?thesis by simp
  next
    case 2
    then show ?thesis using u by (rule signup_unique_users)
  next
    case 3
    from login_Inr [OF 3] have "users (serve H s req) = users s" by simp
    with u show ?thesis by (simp add: unique_users_def)
  next
    case 4
    from refresh_Inr [OF 4] have "users (serve H s req) = users s" by simp
    with u show ?thesis by (simp add: unique_users_def)
  next
    case 5
    with u show ?thesis by (simp add: unique_users_def logout_def)
  next
    case 6
    from changePassword_Inr [OF 6] u show ?thesis by (simp add: unique_users_def)
  qed
qed

lemma serve_all_unique_users: "unique_users s \<Longrightarrow> unique_users (serve_all H s reqs)"
  unfolding serve_all_def
  by (induction reqs arbitrary: s) (simp_all add: serve_unique_users)

lemma init_unique_users: "unique_users init"
  by (simp add: unique_users_def init_def)

lemma signup_duplicate:
  assumes "u \<in> set (users s)" and "cred_email u = mail \<or> cred_username u = username"
  shows "signup H s username mail password r now = Inl DuplicateUserError"
proof -
  from assms have "\<exists>u \<in> set (users s). cred_email u = mail \<or> cred_username u = username"
    by blast
  then show ?thesis by (simp add: signup_def)
qed

lemma revoke_subset: "set (revoke l tok) \<subseteq> set l"
  by (auto simp: revoke_def)

lemma revokeAll_subset: "set (revokeAll l userId) \<subseteq> set l"
  by (auto simp: revokeAll_def)

lemma revoke_gone: "tok \<notin> token ` set (revoke l tok)"
  by (auto simp: revoke_def)

lemma serve_ledger:
  "next_token (serve H s req) = next_token s \<and> set (ledger (serve H s req)) \<subseteq> set (ledger s) \<or>
   next_token (serve H s req) = Suc (next_token s) \<and>
     (\<exists>rec. token rec = next_token s \<and> set (ledger (serve H s req)) \<subseteq> insert rec (set (ledger s)))"
proof -
  consider "serve H s req = s"
    | username mail password r now out where
        "signup H s username mail password r now = Inr (out, serve H s req)"
    | mail password now out where "login H s mail password now = Inr (out, serve H s req)"
    | tok now out where "refresh s tok now = Inr (out, serve H s req)"
    | tok where "serve H s req = logout s tok"
    | userId oldPassword newPassword where
        "changePassword H s userId oldPassword newPassword = Inr (serve H s req)"
    using serve_cases [of H s req] by blast
  then show ?thesis
  proof cases
    case 1
    then show ?thesis by simp
  next
    case 2
    from signup_Inr [OF 2] obtain rec where
      "next_token (serve H s req) = Suc (next_token s)"
      "ledger (serve H s req) = ledger s @ [rec]" "token rec = next_token s"
      by blast
    then have "next_token (serve H s req) = Suc (next_token s) \<and>
      (\<exists>rec. token rec = next_token s \<and> set (ledger (serve H s req)) \<subseteq> insert rec (set (ledger s)))"
      by auto
    then show ?thesis by (rule disjI2)
  next
    case 3
    from login_Inr [OF 3] obtain rec where
      "next_token (serve H s req) = Suc (next_token s)"
      "ledger (serve H s req) = ledger s @ [rec]" "token rec = next_token s"
      by blast
    then have "next_token (serve H s req) = Suc (next_token s) \<and>
      (\<exists>rec. token rec = next_token s \<and> set (ledger (serve H s req)) \<subseteq> insert rec (set (ledger s)))"
      by auto
    then show ?thesis by (rule disjI2)
  next
    case 4
    from refresh_Inr [OF 4] obtain rec where
      n: "next_token (serve H s req) = Suc (next_token s)"
      and l: "ledger (serve H s req) = revoke (ledger s) tok @ [rec]" and t: "token rec = next_token s"
      by blast
    from l revoke_subset [of "ledger s" tok]
    have "set (ledger (serve H s req)) \<subseteq> insert rec (set (ledger s))"
      by auto
    with n t have "next_token (serve H s req) = Suc (next_token s) \<and>
      (\<exists>rec. token rec = next_token s \<and> set (ledger (serve H s req)) \<subseteq> insert rec (set (ledger s)))"
      by blast
    then show ?thesis by (rule disjI2)
  next
    case 5
    then have "next_token (serve H s req) = next_token s \<and> set (ledger (serve H s req)) \<subseteq> set (ledger s)"
      using revoke_subset [of "ledger s" tok] by (simp add: logout_def)
    then show ?thesis by (rule disjI1)
  next
    case 6
    from changePassword_Inr [OF 6]
    have "next_token (serve H s req) = next_token s \<and> set (ledger (serve H s req)) \<subseteq> set (ledger s)"
      using revokeAll_subset [of "ledger s" userId] by simp
    then show ?thesis by (rule disjI1)
  qed
qed

lemma serve_ledger_below:
  assumes "ledger_below s"
  shows "ledger_below (serve H s req)"
  using serve_ledger [of H s req] assms
  unfolding ledger_below_def by (elim disjE conjE exE) (auto simp: less_Suc_eq)

lemma serve_spent:
  assumes "spent tok s"
  shows "spent tok (serve H s req)"
  using serve_ledger [of H s req] assms
  unfolding spent_def by (elim disjE conjE exE) (auto simp: less_Suc_eq)

lemma serve_all_ledger_below: "ledger_below s \<Longrightarrow> ledger_below (serve_all H s reqs)"
  unfolding serve_all_def
  by (induction reqs arbitrary: s) (simp_all add: serve_ledger_below)

lemma serve_all_spent: "spent tok s \<Longrightarrow> spent tok (serve_all H s reqs)"
  unfolding serve_all_def
  by (induction reqs arbitrary: s) (simp_all add: serve_spent)

lemma init_ledger_below: "ledger_below init"
  by (simp add: ledger_below_def init_def)

lemma refresh_spends:
  assumes ok: "refresh s tok now = Inr (out, s')" and below: "ledger_below s"
  shows "spent tok s'"
proof -
  from refresh_Inr [OF ok] obtain rec where
    n: "next_token s' = Suc (next_token s)" and mem: "tok \<in> token ` set (ledger s)"
    and l: "ledger s' = revoke (ledger s) tok @ [rec]" and t: "token rec = next_token s"
    by blast
  from mem below have lt: "tok < next_token s"
    by (auto simp: ledger_below_def)
  with t have "token rec \<noteq> tok" by simp
  with l revoke_gone [of tok "ledger s"] have "tok \<notin> token ` set (ledger s')"
    by auto
  with lt n show ?thesis by (simp add: spent_def)
qed

lemma spent_refresh_fails:
  assumes "spent tok s"
  shows "refresh s tok now = Inl InvalidCredentialsError"
proof -
  from assms have "\<forall>r \<in> set (ledger s). token r \<noteq> tok"
    by (auto simp: spent_def)
  then have "lookup (ledger s) tok now = None"
    unfolding lookup_def find_None_iff by blast
  then show ?thesis by (simp add: refresh_def)
qed

text \<open>
  C9. Once \<open>refresh\<close> of a token has succeeded, after any history of requests, every
  later \<open>refresh\<close> of the same token fails with \<open>InvalidCredentialsError\<close>, whatever
  requests were served in between and whatever the time.
\<close>

theorem refresh_token_single_use:
  assumes "refresh (serve_all H init history) tok now = Inr (out, s')"
  shows "refresh (serve_all H s' later) tok now' = Inl InvalidCredentialsError"
proof -
  have "ledger_below (serve_all H init history)"
    using init_ledger_below by (rule serve_all_ledger_below)
  with assms have "spent tok s'" by (rule refresh_spends)
  then have "spent tok (serve_all H s' later)" by (rule serve_all_spent)
  then show ?thesis by (rule spent_refresh_fails)
qed

text \<open>
  C8. A login with an existing email and a wrong password and a login with an email
  that no user has both fail with \<open>InvalidCredentialsError\<close>, and the two results
  are the same value: nothing the caller receives tells the two cases apart.
\<close>

theorem login_failures_indistinguishable:
  assumes existing: "\<exists>u \<in> set (users s). cred_email u = email1"
    and wrong: "\<forall>u \<in> set (users s). cred_email u = email1 \<longrightarrow> \<not> verify_pw H password1 (cred_hash u)"
    and absent: "\<forall>u \<in> set (users s). cred_email u \<noteq> email2"
  shows "login H s email1 password1 now1 = Inl InvalidCredentialsError \<and>
         login H s email2 password2 now2 = Inl InvalidCredentialsError \<and>
         login H s email1 password1 now1 = login H s email2 password2 now2"
proof -
  from existing obtain u where "find (\<lambda>u. cred_email u = email1) (users s) = Some u"
    by (cases "find (\<lambda>u. cred_email u = email1) (users s)") (auto simp: find_None_iff)
  moreover from this have "u \<in> set (users s)" "cred_email u = email1"
    by (auto simp: find_Some_iff)
  ultimately have one: "login H s email1 password1 now1 = Inl InvalidCredentialsError"
    using wrong by (simp add: login_def)
  from absent have "find (\<lambda>u. cred_email u = email2) (users s) = None"
    by (simp add: find_None_iff)
  then have two: "login H s email2 password2 now2 = Inl InvalidCredentialsError"
    by (simp add: login_def)
  from one two show ?thesis by simp
qed

text \<open>
  C3. In every state the service reaches from the empty store, no two users share an
  email and no two share a username, and a signup with an email or a username that a
  user already has fails with \<open>DuplicateUserError\<close>.
\<close>

theorem credential_store_unique:
  "distinct (map cred_email (users (serve_all H init reqs))) \<and>
   distinct (map cred_username (users (serve_all H init reqs))) \<and>
   (\<forall>u \<in> set (users (serve_all H init reqs)).
      cred_email u = mail \<or> cred_username u = username \<longrightarrow>
      signup H (serve_all H init reqs) username mail password r now = Inl DuplicateUserError)"
proof -
  have "unique_users (serve_all H init reqs)"
    using init_unique_users by (rule serve_all_unique_users)
  then have "distinct (map cred_email (users (serve_all H init reqs)))"
    and "distinct (map cred_username (users (serve_all H init reqs)))"
    by (simp_all add: unique_users_def)
  moreover have "\<forall>u \<in> set (users (serve_all H init reqs)).
      cred_email u = mail \<or> cred_username u = username \<longrightarrow>
      signup H (serve_all H init reqs) username mail password r now = Inl DuplicateUserError"
    using signup_duplicate by blast
  ultimately show ?thesis by (intro conjI)
qed

lemmas session_defs =
  signup_def login_def refresh_def logout_def changePassword_def open_session_def
  issueRefreshToken_def issueAccessToken_def store_def lookup_def revoke_def revokeAll_def
  access_lifetime_def refresh_lifetime_def toy_hasher_def alice_def Let_def

lemma serve_alice_signup: "serve_all toy_hasher init [alice_signup] = after_signup"
  by (simp add: serve_all_def alice_signup_def after_signup_def init_def session_defs)

lemma refresh_after_signup:
  "refresh after_signup 0 5 = Inr ((AccessToken 0 Candidate 1805, 1), after_refresh)"
  by (simp add: after_signup_def after_refresh_def session_defs)

theorem refresh_token_single_use_witness:
  "refresh (serve_all toy_hasher init [alice_signup]) 0 5 =
     Inr ((AccessToken 0 Candidate 1805, 1), after_refresh) \<and>
   refresh (serve_all toy_hasher after_refresh [Login ''alice@x.com'' ''Passw0rd!'' 6, Logout 1]) 0 7 =
     Inl InvalidCredentialsError"
proof -
  have first: "refresh (serve_all toy_hasher init [alice_signup]) 0 5 =
      Inr ((AccessToken 0 Candidate 1805, 1), after_refresh)"
    by (simp only: serve_alice_signup refresh_after_signup)
  from refresh_token_single_use [OF first] first show ?thesis
    by (intro conjI)
qed

theorem login_failures_indistinguishable_witness:
  "login toy_hasher after_signup ''alice@x.com'' ''wrong'' 7 = Inl InvalidCredentialsError \<and>
   login toy_hasher after_signup ''nobody@x.com'' ''Passw0rd!'' 8 = Inl InvalidCredentialsError \<and>
   login toy_hasher after_signup ''alice@x.com'' ''wrong'' 7 =
     login toy_hasher after_signup ''nobody@x.com'' ''Passw0rd!'' 8"
proof -
  have existing: "\<exists>u \<in> set (users after_signup). cred_email u = ''alice@x.com''"
    by (simp add: after_signup_def alice_def)
  have wrong: "\<forall>u \<in> set (users after_signup).
      cred_email u = ''alice@x.com'' \<longrightarrow> \<not> verify_pw toy_hasher ''wrong'' (cred_hash u)"
    by (simp add: after_signup_def alice_def toy_hasher_def)
  have absent: "\<forall>u \<in> set (users after_signup). cred_email u \<noteq> ''nobody@x.com''"
    by (simp add: after_signup_def alice_def)
  show ?thesis
    by (rule login_failures_indistinguishable [OF existing wrong absent])
qed

theorem credential_store_unique_witness:
  "distinct (map cred_email (users (serve_all toy_hasher init [alice_signup]))) \<and>
   distinct (map cred_username (users (serve_all toy_hasher init [alice_signup]))) \<and>
   alice \<in> set (users (serve_all toy_hasher init [alice_signup])) \<and>
   signup toy_hasher (serve_all toy_hasher init [alice_signup])
     ''bob'' ''alice@x.com'' ''Passw0rd!'' Recruiter 3 = Inl DuplicateUserError"
proof -
  let ?s = "serve_all toy_hasher init [alice_signup]"
  note u = credential_store_unique [of toy_hasher "[alice_signup]" "''alice@x.com''" "''bob''"
      "''Passw0rd!''" Recruiter 3]
  have mem: "alice \<in> set (users ?s)"
    by (simp add: serve_alice_signup after_signup_def)
  have dup: "cred_email alice = ''alice@x.com'' \<or> cred_username alice = ''bob''"
    by (simp add: alice_def)
  from u mem dup have "signup toy_hasher ?s ''bob'' ''alice@x.com'' ''Passw0rd!'' Recruiter 3 =
      Inl DuplicateUserError"
    by blast
  with u mem show ?thesis by blast
qed

end
